theory Spec2Isabelle
  imports Main "HOL-Library.Code_Target_Nat"
begin

section \<open>Strings and \<open>size_t\<close>\<close>

text \<open>
  A \<open>std::string\<close> is a \<open>string\<close> (a list of bytes). Positions are \<open>size_t\<close> values:
  natural numbers below \<open>2 ^ 64\<close>, with the wrap-around of unsigned subtraction and
  addition written out. \<open>npos\<close> is the largest of them.
\<close>

definition npos :: nat where
  "npos = 2 ^ 64 - 1"

definition wsub :: "nat \<Rightarrow> nat \<Rightarrow> nat" where
  "wsub a b = (a + 2 ^ 64 - b) mod 2 ^ 64"

definition wadd :: "nat \<Rightarrow> nat \<Rightarrow> nat" where
  "wadd a b = (a + b) mod 2 ^ 64"

text \<open>Errors of the program: the exceptions it throws and its undefined behaviour.\<close>

datatype error =
    Runtime_error string
  | Out_of_range
  | Undefined_behaviour

text \<open>
  \<open>s[i]\<close>: the character at \<open>i\<close>, and the terminating NUL at \<open>i = s.size()\<close>.
  The program never indexes beyond \<open>s.size()\<close>.
\<close>

definition at :: "string \<Rightarrow> nat \<Rightarrow> char" where
  "at s i = (if i < length s then s ! i else CHR 0x00)"

text \<open>\<open>s.find(c, pos)\<close>: the first index \<open>\<ge> pos\<close> holding \<open>c\<close>, or \<open>npos\<close>.\<close>

definition str_find :: "string \<Rightarrow> char \<Rightarrow> nat \<Rightarrow> nat" where
  "str_find s c pos =
     (case List.find (\<lambda>i. s ! i = c) [pos..<length s] of
        None \<Rightarrow> npos
      | Some i \<Rightarrow> i)"

text \<open>\<open>s.rfind(c, pos)\<close>: the last index \<open>\<le> pos\<close> holding \<open>c\<close>, or \<open>npos\<close>.\<close>

definition str_rfind :: "string \<Rightarrow> char \<Rightarrow> nat \<Rightarrow> nat" where
  "str_rfind s c pos =
     (case List.find (\<lambda>i. s ! i = c) (rev [0..<min (Suc pos) (length s)]) of
        None \<Rightarrow> npos
      | Some i \<Rightarrow> i)"

text \<open>
  \<open>s.erase(j, n)\<close> throws \<open>std::out_of_range\<close> when \<open>j > s.size()\<close> and otherwise removes
  \<open>min n (s.size() - j)\<close> characters from \<open>j\<close> on; \<open>s.erase(j)\<close> is \<open>s.erase(j, npos)\<close>.
  \<open>s.substr(i, n)\<close> throws in the same case.
\<close>

definition erase :: "string \<Rightarrow> nat \<Rightarrow> nat \<Rightarrow> error + string" where
  "erase s j n =
     (if j > length s then Inl Out_of_range
      else Inr (take j s @ drop (j + min n (length s - j)) s))"

definition substr :: "string \<Rightarrow> nat \<Rightarrow> nat \<Rightarrow> error + string" where
  "substr s i n =
     (if i > length s then Inl Out_of_range
      else Inr (take (min n (length s - i)) (drop i s)))"

text \<open>\<open>s.c_str()\<close> read as a C string: the bytes before the first NUL.\<close>

definition c_str :: "string \<Rightarrow> string" where
  "c_str s = takeWhile (\<lambda>c. c \<noteq> CHR 0x00) s"

section \<open>The host operating system\<close>

text \<open>
  The program runs against the POSIX calls \<open>getcwd\<close>, \<open>lstat\<close>, \<open>unlink\<close>, \<open>rmdir\<close>,
  \<open>mkdir\<close>, \<open>opendir\<close> and \<open>readdir\<close>. They are not part of the repository. The
  host is a table of entries, each kept under the path it is spelled with, the working
  directory (\<open>None\<close> when \<open>getcwd\<close> fails), the paths at which the host denies
  \<open>unlink\<close>, \<open>rmdir\<close> and \<open>mkdir\<close>, and the directories it refuses to open.
  Every call receives \<open>p.c_str()\<close>.
\<close>

datatype kind = S_IFREG | S_IFDIR | S_IFLNK

record host =
  entries :: "(string \<times> kind) list"
  cwd :: "string option"
  denied :: "string list"
  unreadable :: "string list"

definition lstat :: "host \<Rightarrow> string \<Rightarrow> kind option" where
  "lstat h p = map_of (entries h) (c_str p)"

definition getcwd :: "host \<Rightarrow> string option" where
  "getcwd h = cwd h"

text \<open>The name of \<open>q\<close> inside the directory \<open>d\<close>, when \<open>q\<close> is directly inside it.\<close>

definition child_name :: "string \<Rightarrow> string \<Rightarrow> string option" where
  "child_name d q =
     (let n = drop (length d + 1) q
      in if take (length d + 1) q = d @ ''/'' \<and> n \<noteq> [] \<and> CHR ''/'' \<notin> set n
         then Some n else None)"

definition children :: "host \<Rightarrow> string \<Rightarrow> string list" where
  "children h d = List.map_filter (child_name d) (map fst (entries h))"

definition delete_entry :: "host \<Rightarrow> string \<Rightarrow> host" where
  "delete_entry h q = h\<lparr>entries := filter (\<lambda>e. fst e \<noteq> q) (entries h)\<rparr>"

text \<open>
  \<open>unlink\<close> deletes an entry that is not a directory, \<open>rmdir\<close> an empty directory,
  \<open>mkdir\<close> adds a directory where no entry is. Each returns whether the call
  returned 0, and the host after it.
\<close>

definition unlink :: "host \<Rightarrow> string \<Rightarrow> bool \<times> host" where
  "unlink h p =
     (let q = c_str p
      in if (lstat h p = Some S_IFREG \<or> lstat h p = Some S_IFLNK) \<and> q \<notin> set (denied h)
         then (True, delete_entry h q) else (False, h))"

definition rmdir :: "host \<Rightarrow> string \<Rightarrow> bool \<times> host" where
  "rmdir h p =
     (let q = c_str p
      in if lstat h p = Some S_IFDIR \<and> children h q = [] \<and> q \<notin> set (denied h)
         then (True, delete_entry h q) else (False, h))"

definition mkdir :: "host \<Rightarrow> string \<Rightarrow> nat \<Rightarrow> bool \<times> host" where
  "mkdir h p mode =
     (let q = c_str p
      in if lstat h p = None \<and> q \<noteq> [] \<and> q \<notin> set (denied h)
         then (True, h\<lparr>entries := entries h @ [(q, S_IFDIR)]\<rparr>) else (False, h))"

text \<open>
  \<open>opendir\<close> gives a directory stream: the names still to be read, \<open>.\<close> and \<open>..\<close>
  first, as the directory holds them when it is opened. \<open>readdir\<close> takes the next
  name off the stream, or returns the null pointer at its end.
\<close>

definition opendir :: "host \<Rightarrow> string \<Rightarrow> string list option" where
  "opendir h p =
     (let q = c_str p
      in if lstat h p = Some S_IFDIR \<and> q \<notin> set (unreadable h)
         then Some (''.'' # ''..'' # children h q) else None)"

definition readdir :: "string list \<Rightarrow> string option \<times> string list" where
  "readdir d = (case d of [] \<Rightarrow> (None, []) | n # ns \<Rightarrow> (Some n, ns))"

section \<open>Path: the lexical operations\<close>

text \<open>A \<open>Path\<close> holds one string \<open>s\<close>; it is modelled by that string.\<close>

type_synonym Path = string

definition is_slash :: "char \<Rightarrow> bool" where
  "is_slash c = (c = CHR ''/'')"

definition last_slash :: "string \<Rightarrow> nat" where
  "last_slash s = str_rfind s CHR ''/'' npos"

text \<open>\<open>s.back()\<close> is undefined on the empty string.\<close>

definition str_back :: "string \<Rightarrow> error + char" where
  "str_back s = (if s = [] then Inl Undefined_behaviour else Inr (last s))"

text \<open>\<open>Path::operator+\<close> and \<open>Path::operator/\<close>.\<close>

definition path_plus :: "Path \<Rightarrow> Path \<Rightarrow> Path" where
  "path_plus s p = s @ p"

definition path_div :: "Path \<Rightarrow> Path \<Rightarrow> error + Path" where
  "path_div s p =
     (case str_back s of
        Inl e \<Rightarrow> Inl e
      | Inr c \<Rightarrow> if is_slash c then Inr (s @ p) else Inr (s @ ''/'' @ p))"

text \<open>\<open>Path::operator/=\<close>: the new value of the left operand.\<close>

definition path_div_assign :: "Path \<Rightarrow> Path \<Rightarrow> error + Path" where
  "path_div_assign s p =
     (case str_back s of
        Inl e \<Rightarrow> Inl e
      | Inr c \<Rightarrow> if is_slash c then Inr (s @ p) else Inr (s @ (''/'' @ p)))"

definition filename :: "Path \<Rightarrow> error + Path" where
  "filename s =
     (let i = last_slash s
      in if i = npos then Inr s else substr s (wadd i 1) npos)"

definition extension :: "Path \<Rightarrow> error + Path" where
  "extension s =
     (let i = str_rfind s CHR ''.'' npos
      in if i = npos then Inr '''' else substr s i npos)"

text \<open>\<open>Path::stem\<close> computes \<open>st = filename()\<close> and then slices \<open>s\<close>, not \<open>st\<close>.\<close>

definition stem :: "Path \<Rightarrow> error + Path" where
  "stem s =
     (case filename s of
        Inl e \<Rightarrow> Inl e
      | Inr st \<Rightarrow>
          (let i = str_rfind s CHR ''.'' npos
           in if i = npos then Inr s else substr s 0 i))"

section \<open>complete and canonical\<close>

text \<open>
  \<open>complete\<close> (POSIX branch): an absolute path is returned as it is, the empty path
  becomes the working directory, any other path is joined onto it.
\<close>

definition complete :: "host \<Rightarrow> Path \<Rightarrow> error + Path" where
  "complete h p =
     (if length p > 0 \<and> is_slash (at p 0) then Inr p
      else (case getcwd h of
              None \<Rightarrow> Inl (Runtime_error ''could not obtain current working directory'')
            | Some buf \<Rightarrow> if p = [] then Inr buf else path_div buf p))"

text \<open>
  The body of the scanning loop of \<open>canonical\<close>, at a position \<open>pos\<close> that holds a
  dot. \<open>continue\<close> and \<open>++pos\<close> go round again (\<open>Again\<close>, with the string and the
  position the next \<open>find\<close> starts from); \<open>break\<close> and a throwing \<open>erase\<close> leave the
  loop (\<open>Leave\<close>).
\<close>

datatype round = Again string nat | Leave "error + string"

definition canonical_body :: "string \<Rightarrow> nat \<Rightarrow> round" where
  "canonical_body s pos =
     (if at s (wsub pos 1) = CHR ''/'' \<and> pos < wsub (length s) 1
         \<and> at s (wadd pos 1) = CHR ''/''
      then (let j = str_rfind s CHR ''/'' (wsub pos 2)
            in case erase s j (wadd (wsub pos j) 1) of
                 Inl e \<Rightarrow> Leave (Inl e)
               | Inr s' \<Rightarrow> Again s' pos)
      else if at s (wsub pos 1) = CHR ''/'' \<and> pos = wsub (length s) 1
      then Leave (erase s (str_rfind s CHR ''/'' (wsub pos 2)) npos)
      else if pos < wsub (length s) 2 \<and> at s (wsub pos 1) = CHR ''/''
              \<and> at s (wadd pos 1) = CHR ''.'' \<and> at s (wadd pos 2) = CHR ''/''
      then (let j = str_rfind s CHR ''/'' (wsub pos 2)
            in case erase s j (wadd (wsub pos j) 2) of
                 Inl e \<Rightarrow> Leave (Inl e)
               | Inr s' \<Rightarrow> Again s' pos)
      else if pos = wsub (length s) 2 \<and> at s (wsub pos 1) = CHR ''/''
              \<and> at s (wadd pos 1) = CHR ''.''
      then Leave (erase s (str_rfind s CHR ''/'' (wsub pos 2)) npos)
      else Again s (wadd pos 1))"

text \<open>
  The loop \<open>while((pos = s.find('.', pos)) != npos)\<close>. \<open>None\<close> is a loop that does
  not end.
\<close>

partial_function (option) canonical_loop :: "string \<Rightarrow> nat \<Rightarrow> (error + string) option" where
  "canonical_loop s pos0 =
     (let pos = str_find s CHR ''.'' pos0
      in if pos = npos then Some (Inr s)
         else (case canonical_body s pos of
                 Leave r \<Rightarrow> Some r
               | Again s' pos' \<Rightarrow> canonical_loop s' pos'))"

declare canonical_loop.simps [code]

definition canonical :: "host \<Rightarrow> Path \<Rightarrow> (error + Path) option" where
  "canonical h p =
     (case complete h p of
        Inl e \<Rightarrow> Some (Inl e)
      | Inr s \<Rightarrow> canonical_loop s 1)"

text \<open>
  \<open>Path::operator==\<close>: both operands are made canonical and compared with \<open>strcmp\<close>.
\<close>

definition path_eq :: "host \<Rightarrow> Path \<Rightarrow> Path \<Rightarrow> (error + bool) option" where
  "path_eq h s p =
     (case canonical h s of
        None \<Rightarrow> None
      | Some (Inl e) \<Rightarrow> Some (Inl e)
      | Some (Inr a) \<Rightarrow>
          (case canonical h p of
             None \<Rightarrow> None
           | Some (Inl e) \<Rightarrow> Some (Inl e)
           | Some (Inr b) \<Rightarrow> Some (Inr (c_str a = c_str b))))"

section \<open>The wrappers of the host calls\<close>

definition exists :: "host \<Rightarrow> Path \<Rightarrow> bool" where
  "exists h p = (lstat h p \<noteq> None)"

definition is_regular_file :: "host \<Rightarrow> Path \<Rightarrow> bool" where
  "is_regular_file h p = (case lstat h p of None \<Rightarrow> False | Some k \<Rightarrow> k = S_IFREG)"

definition is_directory :: "host \<Rightarrow> Path \<Rightarrow> bool" where
  "is_directory h p = (case lstat h p of None \<Rightarrow> False | Some k \<Rightarrow> k = S_IFDIR)"

text \<open>\<open>remove\<close>, built without \<open>FS_DRYRUN\<close>.\<close>

definition remove :: "host \<Rightarrow> Path \<Rightarrow> bool \<times> host" where
  "remove h p = (if is_directory h p then rmdir h p else unlink h p)"

text \<open>
  \<open>create_directory\<close> is declared \<open>-> void\<close>: it calls \<open>mkdir(p.c_str(), 0755)\<close> and
  drops what the call returns. The model returns the unit value and the host after
  the call.
\<close>

definition create_directory :: "host \<Rightarrow> Path \<Rightarrow> unit \<times> host" where
  "create_directory h p = ((), snd (mkdir h p 493))"

section \<open>directory_iterator\<close>

text \<open>
  The fields of the class: \<open>dir\<close>, the open stream or the null pointer; \<open>dp\<close>, the
  entry last read or the null pointer; \<open>p\<close>, the directory's path.
\<close>

record directory_iterator =
  it_dir :: "string list option"
  it_dp :: "string option"
  it_p :: Path

text \<open>The default constructor: the end sentinel.\<close>

definition end_it :: directory_iterator where
  "end_it = \<lparr>it_dir = None, it_dp = None, it_p = ''''\<rparr>"

text \<open>\<open>operator++\<close>: read the next entry; at the end close the stream.\<close>

definition incr :: "directory_iterator \<Rightarrow> directory_iterator" where
  "incr it =
     (case it_dir it of
        None \<Rightarrow> it
      | Some d \<Rightarrow>
          (case readdir d of
             (None, _) \<Rightarrow> it\<lparr>it_dir := None, it_dp := None\<rparr>
           | (Some n, d') \<Rightarrow> it\<lparr>it_dir := Some d', it_dp := Some n\<rparr>))"

text \<open>\<open>directory_iterator(const Path&)\<close>: open, throw if that fails, advance once.\<close>

definition directory_iterator_open :: "host \<Rightarrow> Path \<Rightarrow> error + directory_iterator" where
  "directory_iterator_open h p2 =
     (case opendir h p2 of
        None \<Rightarrow> Inl (Runtime_error (''cannot open directory '' @ p2))
      | Some d \<Rightarrow> Inr (incr \<lparr>it_dir = Some d, it_dp = None, it_p = p2\<rparr>))"

text \<open>\<open>operator*\<close>: \<open>p / dp->d_name\<close>; undefined when \<open>dp\<close> is null.\<close>

definition deref :: "directory_iterator \<Rightarrow> error + Path" where
  "deref it =
     (case it_dp it of
        None \<Rightarrow> Inl Undefined_behaviour
      | Some n \<Rightarrow> path_div (it_p it) n)"

text \<open>
  \<open>operator==\<close>: \<open>dir == rhs.dir && dp == rhs.dp && (p == rhs.p || (dir == nullptr &&
  dp == nullptr))\<close>, with the short circuit of \<open>&&\<close> and \<open>||\<close>. The pointers are compared
  through what they point to, which is exact when one side is null; the program only
  compares with the end sentinel.
\<close>

definition iter_eq ::
  "host \<Rightarrow> directory_iterator \<Rightarrow> directory_iterator \<Rightarrow> (error + bool) option" where
  "iter_eq h it rhs =
     (if it_dir it = it_dir rhs \<and> it_dp it = it_dp rhs
      then (case path_eq h (it_p it) (it_p rhs) of
              None \<Rightarrow> None
            | Some (Inl e) \<Rightarrow> Some (Inl e)
            | Some (Inr b) \<Rightarrow> Some (Inr (b \<or> (it_dir it = None \<and> it_dp it = None))))
      else Some (Inr False))"

definition iter_ne ::
  "host \<Rightarrow> directory_iterator \<Rightarrow> directory_iterator \<Rightarrow> (error + bool) option" where
  "iter_ne h it rhs =
     (case iter_eq h it rhs of
        None \<Rightarrow> None
      | Some (Inl e) \<Rightarrow> Some (Inl e)
      | Some (Inr b) \<Rightarrow> Some (Inr (\<not> b)))"

section \<open>remove_all\<close>

text \<open>A frame of \<open>dirstack\<close> and \<open>moredirs\<close>: \<open>std::pair<directory_iterator, Path>\<close>.\<close>

type_synonym frame = "directory_iterator \<times> Path"

text \<open>The test \<open>p2.filename() == "." || p2.filename() == ".."\<close>.\<close>

definition is_dot_entry :: "host \<Rightarrow> Path \<Rightarrow> (error + bool) option" where
  "is_dot_entry h p2 =
     (case filename p2 of
        Inl e \<Rightarrow> Some (Inl e)
      | Inr f \<Rightarrow>
          (case path_eq h f ''.'' of
             None \<Rightarrow> None
           | Some (Inl e) \<Rightarrow> Some (Inl e)
           | Some (Inr b) \<Rightarrow> if b then Some (Inr True) else path_eq h f ''..''))"

text \<open>
  The \<open>for\<close> loop over the top frame's iterator. It ends with the iterator at the end
  (\<open>Exhausted\<close>: the host, the iterator and \<open>moredirs\<close> as the loop leaves them) or at
  \<open>return false\<close> (\<open>Returned_false\<close>).
\<close>

datatype scan_result =
    Exhausted host directory_iterator "frame list"
  | Returned_false host

partial_function (option) scan ::
  "host \<Rightarrow> directory_iterator \<Rightarrow> frame list \<Rightarrow> (error + scan_result) option" where
  "scan h it moredirs =
     (case iter_ne h it end_it of
        None \<Rightarrow> None
      | Some (Inl e) \<Rightarrow> Some (Inl e)
      | Some (Inr going) \<Rightarrow>
          if \<not> going then Some (Inr (Exhausted h it moredirs))
          else
            (case deref it of
               Inl e \<Rightarrow> Some (Inl e)
             | Inr p2 \<Rightarrow>
                 (case is_dot_entry h p2 of
                    None \<Rightarrow> None
                  | Some (Inl e) \<Rightarrow> Some (Inl e)
                  | Some (Inr dot) \<Rightarrow>
                      if dot then scan h (incr it) moredirs
                      else if is_directory h p2
                      then (case directory_iterator_open h p2 of
                              Inl e \<Rightarrow> Some (Inl e)
                            | Inr it2 \<Rightarrow> scan h (incr it) (moredirs @ [(it2, p2)]))
                      else (case remove h p2 of
                              (removed, h') \<Rightarrow>
                                if \<not> removed then Some (Inr (Returned_false h'))
                                else scan h' (incr it) moredirs))))"

declare scan.simps [code]

text \<open>
  A frame after it has been moved from: the iterator's \<open>dir\<close> is set to null, \<open>dp\<close>
  stays, and the two moved-from strings are left empty.
\<close>

definition moved_from :: "frame \<Rightarrow> frame" where
  "moved_from f = ((fst f)\<lparr>it_dir := None, it_p := ''''\<rparr>, '''')"

text \<open>
  \<open>std::move(first, last, d_first)\<close> from the whole of \<open>src\<close> into \<open>dst\<close> at index \<open>k\<close>.
  Writing past \<open>dst.size()\<close> is undefined behaviour, and both readings of it are
  kept: the write is a fault (\<open>Traps\<close>), or it lands outside the elements of the
  vector and they stay as they are (\<open>Lost\<close>).
\<close>

datatype past_the_end = Traps | Lost

definition std_move ::
  "past_the_end \<Rightarrow> frame list \<Rightarrow> frame list \<Rightarrow> nat \<Rightarrow> error + frame list \<times> frame list" where
  "std_move w src dst k =
     (if src = [] then Inr (src, dst)
      else if k + length src \<le> length dst
      then Inr (map moved_from src, take k dst @ src @ drop (k + length src) dst)
      else (case w of
              Traps \<Rightarrow> Inl Undefined_behaviour
            | Lost \<Rightarrow> Inr (map moved_from src, take k dst @ take (length dst - k) src)))"

text \<open>
  The end of a pass of the \<open>while\<close> loop, after the \<open>for\<close> loop. \<open>dir\<close> is a
  reference to \<open>dirstack.back()\<close>, so the iterator the \<open>for\<close> loop advanced is the
  one in the stack. With no queued frame the directory is removed, the result of
  \<open>remove\<close> dropped, and the frame popped. Otherwise \<open>resize\<close> appends
  default-constructed frames and \<open>std::move\<close> is given
  \<open>begin(dirstack) + dirstack.size()\<close>, the size being the one after the \<open>resize\<close>;
  \<open>moredirs\<close> is not cleared.
\<close>

definition pass_end ::
  "past_the_end \<Rightarrow> frame list \<Rightarrow> host \<Rightarrow> directory_iterator \<Rightarrow> frame list
     \<Rightarrow> error + host \<times> frame list \<times> frame list" where
  "pass_end w dirstack h it moredirs =
     (let dirstack' = butlast dirstack @ [(it, snd (last dirstack))]
      in if moredirs = []
         then Inr (snd (remove h (snd (last dirstack'))), butlast dirstack', moredirs)
         else (let resized = dirstack' @ replicate (length moredirs) (end_it, '''')
               in case std_move w moredirs resized (length resized) of
                    Inl e \<Rightarrow> Inl e
                  | Inr (moredirs', dirstack'') \<Rightarrow> Inr (h, dirstack'', moredirs')))"

text \<open>The loop \<open>while(dirstack.size() > 0)\<close>; \<open>None\<close> is a loop that does not end.\<close>

partial_function (option) remove_all_loop ::
  "past_the_end \<Rightarrow> host \<Rightarrow> frame list \<Rightarrow> frame list \<Rightarrow> (error + bool \<times> host) option" where
  "remove_all_loop w h dirstack moredirs =
     (if \<not> length dirstack > 0 then Some (Inr (True, h))
      else
        (case scan h (fst (last dirstack)) moredirs of
           None \<Rightarrow> None
         | Some (Inl e) \<Rightarrow> Some (Inl e)
         | Some (Inr (Returned_false h')) \<Rightarrow> Some (Inr (False, h'))
         | Some (Inr (Exhausted h' it' moredirs')) \<Rightarrow>
             (case pass_end w dirstack h' it' moredirs' of
                Inl e \<Rightarrow> Some (Inl e)
              | Inr (h'', dirstack', moredirs'') \<Rightarrow>
                  remove_all_loop w h'' dirstack' moredirs'')))"

declare remove_all_loop.simps [code]

definition remove_all :: "past_the_end \<Rightarrow> host \<Rightarrow> Path \<Rightarrow> (error + bool \<times> host) option" where
  "remove_all w h p =
     (if \<not> is_directory h p then Some (Inr (unlink h p))
      else (case directory_iterator_open h p of
              Inl e \<Rightarrow> Some (Inl e)
            | Inr it \<Rightarrow> remove_all_loop w h [(it, p)] []))"

section \<open>Path segments\<close>

text \<open>
  The segments of a path are the pieces between its separators. A path is free of dot
  segments when none of them is \<open>.\<close> or \<open>..\<close>.
\<close>

fun segments :: "string \<Rightarrow> string list" where
  "segments [] = [[]]"
| "segments (c # cs) =
     (if c = CHR ''/'' then [] # segments cs
      else (case segments cs of
              [] \<Rightarrow> [[c]]
            | seg # rest \<Rightarrow> (c # seg) # rest))"

definition dot_free :: "string \<Rightarrow> bool" where
  "dot_free s = (''.'' \<notin> set (segments s) \<and> ''..'' \<notin> set (segments s))"

section \<open>Hosts used in the examples\<close>

text \<open>A host with no entries whose working directory is \<open>/home/u\<close>.\<close>

definition home_u :: host where
  "home_u = \<lparr>entries = [], cwd = Some ''/home/u'', denied = [], unreadable = []\<rparr>"

text \<open>
  The directory \<open>/tmp/t\<close> with the file \<open>a.txt\<close> and the subdirectory \<open>sub\<close>, which
  holds the file \<open>b.txt\<close>. Nothing is denied.
\<close>

definition tree :: host where
  "tree = \<lparr>entries = [(''/tmp/t'', S_IFDIR), (''/tmp/t/a.txt'', S_IFREG),
                       (''/tmp/t/sub'', S_IFDIR), (''/tmp/t/sub/b.txt'', S_IFREG)],
            cwd = Some ''/home/u'', denied = [], unreadable = []\<rparr>"

text \<open>The directory \<open>/tmp/t\<close> with one file; the host denies deleting the directory.\<close>

definition flat_denied :: host where
  "flat_denied = \<lparr>entries = [(''/tmp/t'', S_IFDIR), (''/tmp/t/a.txt'', S_IFREG)],
                   cwd = Some ''/home/u'', denied = [''/tmp/t''], unreadable = []\<rparr>"

text \<open>The same directory; the host denies deleting the file.\<close>

definition file_denied :: host where
  "file_denied = \<lparr>entries = [(''/tmp/t'', S_IFDIR), (''/tmp/t/a.txt'', S_IFREG)],
                   cwd = Some ''/home/u'', denied = [''/tmp/t/a.txt''], unreadable = []\<rparr>"

text \<open>The same directory; the host refuses to open it.\<close>

definition flat_unreadable :: host where
  "flat_unreadable = \<lparr>entries = [(''/tmp/t'', S_IFDIR), (''/tmp/t/a.txt'', S_IFREG)],
                       cwd = Some ''/home/u'', denied = [], unreadable = [''/tmp/t'']\<rparr>"

text \<open>
  The states of \<open>remove_all("/tmp/t")\<close> on \<open>tree\<close>: the iterator the root frame starts
  with, the iterator when the \<open>for\<close> loop has run through it, the host at that point
  (\<open>a.txt\<close> is gone), and the frame queued for \<open>sub\<close>.
\<close>

definition root_it :: directory_iterator where
  "root_it = \<lparr>it_dir = Some [''..'', ''a.txt'', ''sub''], it_dp = Some ''.'', it_p = ''/tmp/t''\<rparr>"

definition root_it_done :: directory_iterator where
  "root_it_done = \<lparr>it_dir = None, it_dp = None, it_p = ''/tmp/t''\<rparr>"

definition tree_after_scan :: host where
  "tree_after_scan = \<lparr>entries = [(''/tmp/t'', S_IFDIR), (''/tmp/t/sub'', S_IFDIR),
                                  (''/tmp/t/sub/b.txt'', S_IFREG)],
                       cwd = Some ''/home/u'', denied = [], unreadable = []\<rparr>"

definition sub_frame :: frame where
  "sub_frame = (\<lparr>it_dir = Some [''..'', ''b.txt''], it_dp = Some ''.'', it_p = ''/tmp/t/sub''\<rparr>,
                ''/tmp/t/sub'')"

text \<open>The host \<open>flat_denied\<close> once the file is deleted.\<close>

definition flat_denied_after :: host where
  "flat_denied_after = \<lparr>entries = [(''/tmp/t'', S_IFDIR)],
                         cwd = Some ''/home/u'', denied = [''/tmp/t''], unreadable = []\<rparr>"

section \<open>Unfolding the loop of canonical\<close>

lemma canonical_loop_end:
  "str_find s CHR ''.'' pos0 = npos \<Longrightarrow> canonical_loop s pos0 = Some (Inr s)"
  by (subst canonical_loop.simps) simp

lemma canonical_loop_again:
  "str_find s CHR ''.'' pos0 = pos \<Longrightarrow> pos \<noteq> npos \<Longrightarrow> canonical_body s pos = Again s' pos'
   \<Longrightarrow> canonical_loop s pos0 = canonical_loop s' pos'"
  by (subst canonical_loop.simps) simp

lemma canonical_loop_leave:
  "str_find s CHR ''.'' pos0 = pos \<Longrightarrow> pos \<noteq> npos \<Longrightarrow> canonical_body s pos = Leave r
   \<Longrightarrow> canonical_loop s pos0 = Some r"
  by (subst canonical_loop.simps) simp

lemma canonical_loop_cycle_aux:
  assumes run: "canonical_loop s p = Some r"
  shows "\<not> (str_find s CHR ''.'' p = p \<and> p \<noteq> npos \<and> canonical_body s p = Again s p)"
proof (rule canonical_loop.raw_induct
    [where P = "\<lambda>s p r. \<not> (str_find s CHR ''.'' p = p \<and> p \<noteq> npos \<and> canonical_body s p = Again s p)",
      OF _ run])
  fix f :: "string \<Rightarrow> nat \<Rightarrow> (error + string) option" and s pos0 y
  assume IH: "\<And>s p y. f s p = Some y \<Longrightarrow>
      \<not> (str_find s CHR ''.'' p = p \<and> p \<noteq> npos \<and> canonical_body s p = Again s p)"
    and body: "(let pos = str_find s CHR ''.'' pos0
         in if pos = npos then Some (Inr s)
            else case canonical_body s pos of
                   Again s' pos' \<Rightarrow> f s' pos'
                 | Leave r \<Rightarrow> Some r) = Some y"
  show "\<not> (str_find s CHR ''.'' pos0 = pos0 \<and> pos0 \<noteq> npos \<and> canonical_body s pos0 = Again s pos0)"
  proof
    assume c: "str_find s CHR ''.'' pos0 = pos0 \<and> pos0 \<noteq> npos \<and> canonical_body s pos0 = Again s pos0"
    with body have "f s pos0 = Some y" by simp
    from IH[OF this] c show False by simp
  qed
qed

lemma canonical_loop_cycle:
  "str_find s CHR ''.'' p = p \<Longrightarrow> p \<noteq> npos \<Longrightarrow> canonical_body s p = Again s p
   \<Longrightarrow> canonical_loop s p = None"
  using canonical_loop_cycle_aux[of s p] by (cases "canonical_loop s p") auto


section \<open>canonical on paths free of dot segments\<close>

lemma segments_not_Nil: "segments s \<noteq> []"
  by (induction s) (auto split: list.splits)

lemma segments_no_slash: "CHR ''/'' \<notin> set s \<Longrightarrow> segments s = [s]"
  by (induction s) auto

lemma segments_append_slash:
  "segments (a @ CHR ''/'' # b) = segments a @ segments b"
proof (induction a)
  case Nil
  show ?case by simp
next
  case (Cons c a)
  obtain seg rest where sr: "segments a = seg # rest"
    using segments_not_Nil[of a] by (cases "segments a") auto
  show ?case using Cons sr by simp
qed

lemma segment_found:
  assumes k: "Suc k + length seg \<le> length s"
    and slash: "s ! k = CHR ''/''"
    and seg: "take (length seg) (drop (Suc k) s) = seg"
    and clean: "CHR ''/'' \<notin> set seg"
    and stop: "Suc k + length seg = length s \<or> s ! (Suc k + length seg) = CHR ''/''"
  shows "seg \<in> set (segments s)"
proof -
  define rest where "rest = drop (Suc k + length seg) s"
  have "k < length s" using k by simp
  then have "s = take k s @ s ! k # drop (Suc k) s"
    by (simp add: id_take_nth_drop)
  moreover have "drop (Suc k) s = seg @ rest"
    using seg append_take_drop_id[of "length seg" "drop (Suc k) s"]
    by (simp add: rest_def add.commute)
  ultimately have s: "s = take k s @ CHR ''/'' # (seg @ rest)"
    using slash by simp
  have "seg \<in> set (segments (seg @ rest))"
  proof (cases "rest = []")
    case True
    then show ?thesis using clean by (simp add: segments_no_slash)
  next
    case False
    then have lt: "Suc k + length seg < length s" by (simp add: rest_def)
    with stop have "s ! (Suc k + length seg) = CHR ''/''" by simp
    then have "rest = CHR ''/'' # drop (Suc (Suc k + length seg)) s"
      using lt Cons_nth_drop_Suc[of "Suc k + length seg" s] by (simp add: rest_def)
    then obtain r where "rest = CHR ''/'' # r" by blast
    then show ?thesis
      using clean by (simp add: segments_append_slash segments_no_slash)
  qed
  then show ?thesis
    by (subst s) (simp add: segments_append_slash)
qed

lemma str_find_cases:
  assumes "length s < 2 ^ 64"
  shows "str_find s c pos = npos
     \<or> (pos \<le> str_find s c pos \<and> str_find s c pos < length s \<and> s ! str_find s c pos = c)"
proof (cases "List.find (\<lambda>i. s ! i = c) [pos..<length s]")
  case None
  then show ?thesis by (simp add: str_find_def)
next
  case (Some i)
  then have "i \<in> set [pos..<length s]" and "s ! i = c"
    by (auto simp: find_Some_iff)
  then show ?thesis using Some by (simp add: str_find_def)
qed

lemma wrap_sub:
  fixes a b n :: nat
  assumes "b \<le> a" and "a < n"
  shows "(a + n - b) mod n = a - b"
proof -
  have "a + n - b = (a - b) + n" using assms(1) by simp
  then have "(a + n - b) mod n = (a - b) mod n" by (simp only: mod_add_self2)
  also have "\<dots> = a - b" using assms(2) by (simp only: mod_less less_imp_diff_less)
  finally show ?thesis .
qed

lemma wsub_small: "b \<le> a \<Longrightarrow> a < 2 ^ 64 \<Longrightarrow> wsub a b = a - b"
  unfolding wsub_def by (rule wrap_sub)

lemma wadd_small: "a + b < 2 ^ 64 \<Longrightarrow> wadd a b = a + b"
  by (simp add: wadd_def)

lemma canonical_body_clean:
  assumes free: "dot_free s" and len: "length s < 2 ^ 64"
    and pos: "1 \<le> pos" "pos < length s" and dot: "s ! pos = CHR ''.''"
  shows "canonical_body s pos = Again s (pos + 1)"
proof -
  obtain k where k: "pos = Suc k" using pos by (cases pos) auto
  have w1: "wsub pos 1 = k" using k pos len by (simp add: wsub_small)
  have l1: "wsub (length s) 1 = length s - 1" using pos len by (simp add: wsub_small)
  have l2: "wsub (length s) 2 = length s - 2" using pos len k by (simp add: wsub_small)
  have a1: "wadd pos 1 = pos + 1" using pos len by (simp add: wadd_small)
  have atk: "at s k = s ! k" using k pos by (simp add: at_def)
  have one: "\<not> (s ! k = CHR ''/'' \<and> (Suc pos = length s \<or> s ! Suc pos = CHR ''/''))"
  proof
    assume h: "s ! k = CHR ''/'' \<and> (Suc pos = length s \<or> s ! Suc pos = CHR ''/'')"
    have "drop (Suc k) s = s ! pos # drop (Suc pos) s"
      using pos k Cons_nth_drop_Suc[of pos s] by simp
    then have "take (length ''.'') (drop (Suc k) s) = ''.''"
      using dot by simp
    from segment_found[OF _ _ this] h pos k have "''.'' \<in> set (segments s)" by simp
    with free show False by (simp add: dot_free_def)
  qed
  have two: "\<not> (s ! k = CHR ''/'' \<and> Suc pos < length s \<and> s ! Suc pos = CHR ''.''
       \<and> (Suc (Suc pos) = length s \<or> s ! Suc (Suc pos) = CHR ''/''))"
  proof
    assume h: "s ! k = CHR ''/'' \<and> Suc pos < length s \<and> s ! Suc pos = CHR ''.''
       \<and> (Suc (Suc pos) = length s \<or> s ! Suc (Suc pos) = CHR ''/'')"
    have "drop (Suc pos) s = s ! Suc pos # drop (Suc (Suc pos)) s"
      using h Cons_nth_drop_Suc[of "Suc pos" s] by simp
    moreover have "drop pos s = s ! pos # drop (Suc pos) s"
      using pos Cons_nth_drop_Suc[of pos s] by simp
    ultimately have "drop (Suc k) s = s ! pos # s ! Suc pos # drop (Suc (Suc pos)) s"
      using k by simp
    then have "take (length ''..'') (drop (Suc k) s) = ''..''"
      using dot h by simp
    from segment_found[OF _ _ this] h pos k have "''..'' \<in> set (segments s)" by simp
    with free show False by (simp add: dot_free_def)
  qed
  have c1: "\<not> (at s (wsub pos 1) = CHR ''/'' \<and> pos < wsub (length s) 1
       \<and> at s (wadd pos 1) = CHR ''/'')"
    unfolding w1 l1 a1 atk using one by (auto simp: at_def)
  have c2: "\<not> (at s (wsub pos 1) = CHR ''/'' \<and> pos = wsub (length s) 1)"
    unfolding w1 l1 atk using one pos by auto
  have c3: "\<not> (pos < wsub (length s) 2 \<and> at s (wsub pos 1) = CHR ''/''
       \<and> at s (wadd pos 1) = CHR ''.'' \<and> at s (wadd pos 2) = CHR ''/'')"
  proof
    assume h: "pos < wsub (length s) 2 \<and> at s (wsub pos 1) = CHR ''/''
       \<and> at s (wadd pos 1) = CHR ''.'' \<and> at s (wadd pos 2) = CHR ''/''"
    then have "pos < length s - 2" by (simp add: l2)
    then have lt: "pos + 2 < length s" by arith
    then have a2: "wadd pos 2 = pos + 2" using len by (simp add: wadd_small)
    from h have "s ! k = CHR ''/'' \<and> at s (pos + 1) = CHR ''.'' \<and> at s (pos + 2) = CHR ''/''"
      unfolding w1 a1 a2 atk by simp
    with lt two show False by (simp add: at_def)
  qed
  have c4: "\<not> (pos = wsub (length s) 2 \<and> at s (wsub pos 1) = CHR ''/''
       \<and> at s (wadd pos 1) = CHR ''.'')"
  proof
    assume h: "pos = wsub (length s) 2 \<and> at s (wsub pos 1) = CHR ''/''
       \<and> at s (wadd pos 1) = CHR ''.''"
    from h have p: "pos = wsub (length s) 2" and h1: "at s (wsub pos 1) = CHR ''/''"
      and h2: "at s (wadd pos 1) = CHR ''.''" by blast+
    have e: "Suc (Suc pos) = length s" using p pos k unfolding l2 by arith
    have s1: "s ! k = CHR ''/''" using h1 unfolding w1 atk .
    have "at s (pos + 1) = CHR ''.''" using h2 unfolding a1 .
    then have "Suc pos < length s \<and> s ! Suc pos = CHR ''.''"
      by (auto simp: at_def split: if_splits)
    with e s1 two show False by simp
  qed
  show ?thesis
    unfolding canonical_body_def by (simp only: c1 c2 c3 c4 if_False) (simp only: a1)
qed

lemma canonical_loop_clean:
  assumes free: "dot_free s" and len: "length s < 2 ^ 64"
  shows "1 \<le> pos \<Longrightarrow> canonical_loop s pos = Some (Inr s)"
proof (induction "length s - pos" arbitrary: pos rule: less_induct)
  case less
  from str_find_cases[OF len, of "CHR ''.''" pos]
  show ?case
  proof
    assume "str_find s CHR ''.'' pos = npos"
    then show ?thesis by (rule canonical_loop_end)
  next
    assume f: "pos \<le> str_find s CHR ''.'' pos \<and> str_find s CHR ''.'' pos < length s
       \<and> s ! str_find s CHR ''.'' pos = CHR ''.''"
    define q where "q = str_find s CHR ''.'' pos"
    have q: "pos \<le> q" "q < length s" "s ! q = CHR ''.''" using f by (simp_all add: q_def)
    have qn: "q \<noteq> npos" using q len by (simp add: npos_def)
    have body: "canonical_body s q = Again s (q + 1)"
      using canonical_body_clean[OF free len _ q(2,3)] q(1) less.prems by simp
    have "canonical_loop s pos = canonical_loop s (q + 1)"
      using canonical_loop_again[OF _ qn body] by (simp add: q_def)
    also have "\<dots> = Some (Inr s)"
      using less.hyps[of "q + 1"] q less.prems by simp
    finally show ?thesis .
  qed
qed

lemma canonical_absolute_clean:
  assumes "p \<noteq> []" "hd p = CHR ''/''" "dot_free p" "length p < 2 ^ 64"
  shows "canonical h p = Some (Inr p)"
proof -
  have "complete h p = Inr p"
    using assms(1,2) by (cases p) (simp_all add: complete_def is_slash_def at_def)
  then show ?thesis
    using canonical_loop_clean[OF assms(3,4), of 1] by (simp add: canonical_def)
qed


text \<open>
  C9: for every absolute path \<open>p\<close> free of \<open>.\<close> and \<open>..\<close> segments (and no longer than
  a \<open>size_t\<close> can count), \<open>canonical\<close> returns, and \<open>canonical(canonical(p))\<close> is
  \<open>canonical(p)\<close>, as strings and under \<open>Path::operator==\<close>.
\<close>

theorem canonical_idempotent:
  assumes "p \<noteq> []" and "hd p = CHR ''/''"
    and "''.'' \<notin> set (segments p)" and "''..'' \<notin> set (segments p)"
    and "length p < 2 ^ 64"
  shows "\<exists>q. canonical h p = Some (Inr q) \<and> canonical h q = Some (Inr q)
           \<and> path_eq h q q = Some (Inr True)"
proof -
  have "dot_free p" using assms(3,4) by (simp add: dot_free_def)
  from canonical_absolute_clean[OF assms(1,2) this assms(5)]
  have "canonical h p = Some (Inr p)" .
  then show ?thesis by (simp add: path_eq_def)
qed

theorem canonical_idempotent_witness:
  "''/home/u/x'' \<noteq> [] \<and> hd ''/home/u/x'' = CHR ''/''
   \<and> ''.'' \<notin> set (segments ''/home/u/x'') \<and> ''..'' \<notin> set (segments ''/home/u/x'')
   \<and> length ''/home/u/x'' < 2 ^ 64
   \<and> (\<exists>q. canonical home_u ''/home/u/x'' = Some (Inr q) \<and> canonical home_u q = Some (Inr q)
           \<and> path_eq home_u q q = Some (Inr True))"
proof -
  have a: "''/home/u/x'' \<noteq> []" by simp
  have b: "hd ''/home/u/x'' = CHR ''/''" by simp
  have c: "''.'' \<notin> set (segments ''/home/u/x'')" by code_simp
  have d: "''..'' \<notin> set (segments ''/home/u/x'')" by code_simp
  have e: "length ''/home/u/x'' < 2 ^ 64" by simp
  from canonical_idempotent[OF a b c d e, of home_u] a b c d e show ?thesis by blast
qed

section \<open>The join operators\<close>

text \<open>
  C10: \<open>Path::operator/\<close> and \<open>Path::operator/=\<close> read \<open>s.back()\<close> of the left operand
  before anything else. The read is undefined exactly when the left operand is
  empty; on a non-empty left operand both joins are defined and give the same
  string, with a separator inserted unless the left operand ends in one.
\<close>

theorem join_defined_iff_nonempty:
  "(path_div s p = Inl Undefined_behaviour \<longleftrightarrow> s = [])
   \<and> (path_div_assign s p = Inl Undefined_behaviour \<longleftrightarrow> s = [])
   \<and> (s \<noteq> [] \<longrightarrow>
        path_div s p = Inr (if is_slash (last s) then s @ p else s @ ''/'' @ p)
        \<and> path_div_assign s p = path_div s p)"
  by (simp add: path_div_def path_div_assign_def str_back_def)

theorem join_defined_iff_nonempty_witness:
  "''/a'' \<noteq> [] \<and> path_div ''/a'' ''b'' = Inr ''/a/b''
   \<and> path_div_assign ''/a'' ''b'' = Inr ''/a/b''
   \<and> path_div '''' ''b'' = Inl Undefined_behaviour
   \<and> path_div_assign '''' ''b'' = Inl Undefined_behaviour"
  using join_defined_iff_nonempty[of "''/a''" "''b''"] join_defined_iff_nonempty[of "''''" "''b''"]
  by (simp add: is_slash_def)

section \<open>stem, extension and filename\<close>

lemma stem_report: "stem ''/x/report.tar'' = Inr ''/x/report''"
  by code_simp

lemma extension_report: "extension ''/x/report.tar'' = Inr ''.tar''"
  by code_simp

lemma filename_report: "filename ''/x/report.tar'' = Inr ''report.tar''"
  by code_simp

lemma report_ne: "path_eq home_u (path_plus ''/x/report'' ''.tar'') ''report.tar'' = Some (Inr False)"
  by code_simp

text \<open>
  C8 at \<open>/x/report.tar\<close>, whose filename \<open>report.tar\<close> has exactly one dot: \<open>stem\<close> keeps
  the directory part, so stem and extension concatenate to the whole path and not to
  the filename, as strings and under \<open>Path::operator==\<close> (working directory
  \<open>/home/u\<close>).
\<close>

theorem stem_keeps_directory:
  "stem ''/x/report.tar'' = Inr ''/x/report''
   \<and> extension ''/x/report.tar'' = Inr ''.tar''
   \<and> filename ''/x/report.tar'' = Inr ''report.tar''
   \<and> path_plus ''/x/report'' ''.tar'' \<noteq> ''report.tar''
   \<and> path_eq home_u (path_plus ''/x/report'' ''.tar'') ''report.tar'' = Some (Inr False)"
  using stem_report extension_report filename_report report_ne
  by (simp add: path_plus_def)

section \<open>canonical on dot segments\<close>

lemma canonical_dot_x: "canonical home_u ''./x'' = Some (Inr ''/home/x'')"
  by code_simp

lemma canonical_home_u_x: "canonical home_u ''/home/u/x'' = Some (Inr ''/home/u/x'')"
  by code_simp

lemma canonical_a_b_dot_c: "canonical home_u ''/a/b/./c'' = Some (Inr ''/a/c'')"
  by code_simp

lemma dot_x_ne: "path_eq home_u ''./x'' ''/home/u/x'' = Some (Inr False)"
  by code_simp

text \<open>
  C2 at \<open>./x\<close> with working directory \<open>/home/u\<close>: the completed path is
  \<open>/home/u/./x\<close>, and \<open>canonical\<close> erases from the separator before \<open>u\<close>, so the
  segment \<open>u\<close> goes with the dot and \<open>Path("./x") == Path("/home/u/x")\<close> is false.
  Likewise \<open>/a/b/./c\<close> becomes \<open>/a/c\<close>.
\<close>

theorem dot_segment_takes_previous_segment:
  "complete home_u ''./x'' = Inr ''/home/u/./x''
   \<and> canonical home_u ''./x'' = Some (Inr ''/home/x'')
   \<and> canonical home_u ''/home/u/x'' = Some (Inr ''/home/u/x'')
   \<and> path_eq home_u ''./x'' ''/home/u/x'' = Some (Inr False)
   \<and> canonical home_u ''/a/b/./c'' = Some (Inr ''/a/c'')"
proof -
  have "complete home_u ''./x'' = Inr ''/home/u/./x''" by code_simp
  then show ?thesis
    using canonical_dot_x canonical_home_u_x dot_x_ne canonical_a_b_dot_c by blast
qed

lemma canonical_two_dotdots: "canonical home_u ''/a/b/c/../../d'' = Some (Inr ''/a/b/../d'')"
  by code_simp

lemma dotdot_left: "''..'' \<in> set (segments ''/a/b/../d'')"
  by code_simp

lemma find_dot_a: "str_find ''/./a'' CHR ''.'' 1 = 1"
  by code_simp

lemma body_dot_a: "canonical_body ''/./a'' 1 = Again ''/./a'' 1"
  by code_simp

lemma one_not_npos: "(1::nat) \<noteq> npos"
  by (simp add: npos_def)

lemma find_dot_a_b: "str_find ''/./a/b'' CHR ''.'' 1 = 1"
  by code_simp

lemma body_dot_a_b: "canonical_body ''/./a/b'' 1 = Again ''/./a'' 1"
  by code_simp

lemma canonical_dot_a_b_diverges: "canonical home_u ''/./a/b'' = None"
proof -
  have "complete home_u ''/./a/b'' = Inr ''/./a/b''" by code_simp
  then have "canonical home_u ''/./a/b'' = canonical_loop ''/./a/b'' 1"
    by (simp add: canonical_def)
  also have "\<dots> = canonical_loop ''/./a'' 1"
    by (rule canonical_loop_again[OF find_dot_a_b one_not_npos body_dot_a_b])
  also have "\<dots> = None"
    by (rule canonical_loop_cycle[OF find_dot_a one_not_npos body_dot_a])
  finally show ?thesis .
qed

text \<open>
  C3 at \<open>/a/b/c/../../d\<close>: after the first \<open>..\<close> is erased the scan goes on from the
  old position, which is now past the second \<open>..\<close>, and the result \<open>/a/b/../d\<close> still
  has a \<open>..\<close> segment. At \<open>/./a/b\<close> the dot at position 1 makes \<open>pos - 2\<close> wrap; the
  first round erases \<open>/b\<close>, every later round erases nothing, and \<open>canonical\<close> does
  not return.
\<close>

theorem canonical_leaves_dotdot:
  "canonical home_u ''/a/b/c/../../d'' = Some (Inr ''/a/b/../d'')
   \<and> ''..'' \<in> set (segments ''/a/b/../d'')
   \<and> canonical home_u ''/./a/b'' = None"
  using canonical_two_dotdots dotdot_left canonical_dot_a_b_diverges by blast

section \<open>create_directory\<close>

lemma mkdir_new: "fst (mkdir tree ''/tmp/new'' 493) = True"
  by code_simp

lemma mkdir_old: "fst (mkdir tree ''/tmp/t'' 493) = False"
  by code_simp

text \<open>
  C7, as stated, at the host \<open>tree\<close>: \<open>mkdir\<close> succeeds at \<open>/tmp/new\<close> and fails at
  \<open>/tmp/t\<close>, which exists, and \<open>create_directory\<close> returns the same to its caller in
  both cases.
\<close>

theorem create_directory_reports_nothing:
  "fst (mkdir tree ''/tmp/new'' 493) = True
   \<and> fst (mkdir tree ''/tmp/t'' 493) = False
   \<and> fst (create_directory tree ''/tmp/new'') = fst (create_directory tree ''/tmp/t'')"
  using mkdir_new mkdir_old by simp

text \<open>
  C7, amended: \<open>create_directory\<close> makes the one call \<open>mkdir(p.c_str(), 0755)\<close>, leaves
  the host as that call leaves it, and returns nothing: what it returns is the same
  for every host and path.
\<close>

theorem create_directory_one_mkdir:
  "snd (create_directory h p) = snd (mkdir h p 493)
   \<and> fst (create_directory h p) = fst (create_directory h' p')"
  by (simp add: create_directory_def)

section \<open>Unfolding the loops of remove_all\<close>

lemma scan_at_end:
  assumes "it_dir it = None" and "it_dp it = None"
    and "path_eq h (it_p it) '''' = Some (Inr b)"
  shows "scan h it md = Some (Inr (Exhausted h it md))"
  using assms by (subst scan.simps) (simp add: iter_ne_def iter_eq_def end_it_def)

lemma remove_all_loop_empty: "remove_all_loop w h [] md = Some (Inr (True, h))"
  by (subst remove_all_loop.simps) simp

lemma remove_all_loop_pass:
  assumes "ds \<noteq> []"
    and "scan h (fst (last ds)) md = Some (Inr (Exhausted h' it' md'))"
    and "pass_end w ds h' it' md' = Inr (h'', ds', md'')"
  shows "remove_all_loop w h ds md = remove_all_loop w h'' ds' md''"
  using assms by (subst remove_all_loop.simps) simp

lemma remove_all_loop_fault:
  assumes "ds \<noteq> []"
    and "scan h (fst (last ds)) md = Some (Inr (Exhausted h' it' md'))"
    and "pass_end w ds h' it' md' = Inl e"
  shows "remove_all_loop w h ds md = Some (Inl e)"
  using assms by (subst remove_all_loop.simps) simp

text \<open>
  With the writes past the end lost, a pass that starts with the end sentinel on top
  of the stack and a non-empty \<open>moredirs\<close> ends in a state of the same kind.
\<close>

lemma pass_end_Lost:
  assumes "ds \<noteq> []" and "md \<noteq> []"
  shows "pass_end Lost ds h (fst (last ds)) md
       = Inr (h, ds @ replicate (length md) (end_it, ''''), map moved_from md)"
proof -
  have "butlast ds @ [(fst (last ds), snd (last ds))] = ds"
    using assms(1) by simp
  then show ?thesis
    using assms(2) by (simp add: pass_end_def std_move_def Let_def)
qed

lemma remove_all_loop_stuck_aux:
  assumes run: "remove_all_loop w h ds md = Some r"
  shows "\<not> (w = Lost \<and> ds \<noteq> [] \<and> fst (last ds) = end_it \<and> md \<noteq> []
            \<and> (\<exists>b. path_eq h '''' '''' = Some (Inr b)))"
proof (rule remove_all_loop.raw_induct
    [where P = "\<lambda>w h ds md r. \<not> (w = Lost \<and> ds \<noteq> [] \<and> fst (last ds) = end_it \<and> md \<noteq> []
            \<and> (\<exists>b. path_eq h '''' '''' = Some (Inr b)))", OF _ run])
  fix f :: "past_the_end \<Rightarrow> host \<Rightarrow> frame list \<Rightarrow> frame list \<Rightarrow> (error + bool \<times> host) option"
    and w h ds md y
  assume IH: "\<And>w h ds md y. f w h ds md = Some y \<Longrightarrow>
      \<not> (w = Lost \<and> ds \<noteq> [] \<and> fst (last ds) = end_it \<and> md \<noteq> []
            \<and> (\<exists>b. path_eq h '''' '''' = Some (Inr b)))"
    and body: "(if \<not> 0 < length ds then Some (Inr (True, h))
        else case scan h (fst (last ds)) md of
               None \<Rightarrow> None
             | Some (Inl e) \<Rightarrow> Some (Inl e)
             | Some (Inr (Exhausted h' it' md')) \<Rightarrow>
                 (case pass_end w ds h' it' md' of
                    Inl e \<Rightarrow> Some (Inl e)
                  | Inr (h'', ds', md'') \<Rightarrow> f w h'' ds' md'')
             | Some (Inr (Returned_false h')) \<Rightarrow> Some (Inr (False, h'))) = Some y"
  show "\<not> (w = Lost \<and> ds \<noteq> [] \<and> fst (last ds) = end_it \<and> md \<noteq> []
            \<and> (\<exists>b. path_eq h '''' '''' = Some (Inr b)))"
  proof
    assume c: "w = Lost \<and> ds \<noteq> [] \<and> fst (last ds) = end_it \<and> md \<noteq> []
            \<and> (\<exists>b. path_eq h '''' '''' = Some (Inr b))"
    then obtain b where b: "path_eq h '''' '''' = Some (Inr b)" by blast
    from c have ds: "ds \<noteq> []" and top: "fst (last ds) = end_it" and md: "md \<noteq> []"
      and w: "w = Lost" by blast+
    have sc: "scan h (fst (last ds)) md = Some (Inr (Exhausted h (fst (last ds)) md))"
      using b by (intro scan_at_end) (simp_all add: top end_it_def)
    define ds' where "ds' = ds @ replicate (length md) (end_it, '''')"
    define md' where "md' = map moved_from md"
    have pe: "pass_end w ds h (fst (last ds)) md = Inr (h, ds', md')"
      unfolding w ds'_def md'_def by (rule pass_end_Lost[OF ds md])
    have "f w h ds' md' = Some y"
      using body ds sc pe by simp
    from IH[OF this] have "\<not> (ds' \<noteq> [] \<and> fst (last ds') = end_it \<and> md' \<noteq> [])"
      using w b by blast
    moreover have "ds' \<noteq> []" using ds by (simp add: ds'_def)
    moreover have "last ds' = (end_it, '''')"
      using md by (cases md) (simp_all add: ds'_def)
    moreover have "md' \<noteq> []" using md by (simp add: md'_def)
    ultimately show False by simp
  qed
qed

lemma remove_all_loop_stuck:
  assumes "ds \<noteq> []" and "fst (last ds) = end_it" and "md \<noteq> []"
    and "path_eq h '''' '''' = Some (Inr b)"
  shows "remove_all_loop Lost h ds md = None"
  using remove_all_loop_stuck_aux[of Lost h ds md] assms
  by (cases "remove_all_loop Lost h ds md") auto

section \<open>remove_all on a directory with a subdirectory\<close>

lemma tree_is_directory: "is_directory tree ''/tmp/t''"
  by code_simp

lemma tree_open: "directory_iterator_open tree ''/tmp/t'' = Inr root_it"
  by code_simp

lemma tree_scan:
  "scan tree root_it [] = Some (Inr (Exhausted tree_after_scan root_it_done [sub_frame]))"
  by code_simp

lemma tree_pass_end_Traps:
  "pass_end Traps [(root_it, ''/tmp/t'')] tree_after_scan root_it_done [sub_frame]
     = Inl Undefined_behaviour"
  by code_simp

lemma tree_pass_end_Lost:
  "pass_end Lost [(root_it, ''/tmp/t'')] tree_after_scan root_it_done [sub_frame]
     = Inr (tree_after_scan, [(root_it_done, ''/tmp/t''), (end_it, '''')], [moved_from sub_frame])"
  by code_simp

lemma tree_cwd: "path_eq tree_after_scan '''' '''' = Some (Inr True)"
  by code_simp

lemma remove_all_tree_Traps: "remove_all Traps tree ''/tmp/t'' = Some (Inl Undefined_behaviour)"
proof -
  have "remove_all Traps tree ''/tmp/t'' = remove_all_loop Traps tree [(root_it, ''/tmp/t'')] []"
    using tree_is_directory tree_open by (simp add: remove_all_def)
  also have "\<dots> = Some (Inl Undefined_behaviour)"
    by (rule remove_all_loop_fault[OF _ _ tree_pass_end_Traps]) (simp_all add: tree_scan)
  finally show ?thesis .
qed

lemma remove_all_tree_Lost: "remove_all Lost tree ''/tmp/t'' = None"
proof -
  have "remove_all Lost tree ''/tmp/t'' = remove_all_loop Lost tree [(root_it, ''/tmp/t'')] []"
    using tree_is_directory tree_open by (simp add: remove_all_def)
  also have "\<dots> = remove_all_loop Lost tree_after_scan
       [(root_it_done, ''/tmp/t''), (end_it, '''')] [moved_from sub_frame]"
    by (rule remove_all_loop_pass[OF _ _ tree_pass_end_Lost]) (simp_all add: tree_scan)
  also have "\<dots> = None"
    by (rule remove_all_loop_stuck[OF _ _ _ tree_cwd]) simp_all
  finally show ?thesis .
qed

lemma tree_after_scan_exists:
  "exists tree_after_scan ''/tmp/t'' \<and> \<not> exists tree_after_scan ''/tmp/t/a.txt''
   \<and> exists tree_after_scan ''/tmp/t/sub'' \<and> exists tree_after_scan ''/tmp/t/sub/b.txt''"
  by code_simp

text \<open>
  C1 on the tree of the scenario: the first pass deletes \<open>a.txt\<close> and queues a frame
  for \<open>sub\<close>; at that point \<open>/tmp/t\<close>, \<open>/tmp/t/sub\<close> and \<open>/tmp/t/sub/b.txt\<close> still
  exist. The queued frame is then moved to \<open>begin(dirstack) + dirstack.size()\<close>, past
  the end of the resized stack, and under neither reading of that write does
  \<open>remove_all\<close> return success.
\<close>

theorem remove_all_scenario_no_success:
  "scan tree root_it [] = Some (Inr (Exhausted tree_after_scan root_it_done [sub_frame]))
   \<and> exists tree_after_scan ''/tmp/t'' \<and> exists tree_after_scan ''/tmp/t/sub''
   \<and> exists tree_after_scan ''/tmp/t/sub/b.txt''
   \<and> remove_all Traps tree ''/tmp/t'' \<noteq> Some (Inr (True, h'))
   \<and> remove_all Lost tree ''/tmp/t'' \<noteq> Some (Inr (True, h'))"
  using tree_scan tree_after_scan_exists remove_all_tree_Traps remove_all_tree_Lost by simp

text \<open>
  C4 on the same tree, which has one subdirectory: if the writes past the end of
  \<open>dirstack\<close> are lost, every later pass finds the end sentinel on top of the stack
  and \<open>moredirs\<close> still non-empty, grows the stack again, and the loop does not end;
  if they are a fault, the function ends in it. In neither case does it return a
  boolean.
\<close>

theorem remove_all_subdirectory_no_return:
  "remove_all Lost tree ''/tmp/t'' = None
   \<and> remove_all Traps tree ''/tmp/t'' = Some (Inl Undefined_behaviour)"
  using remove_all_tree_Lost remove_all_tree_Traps by blast

section \<open>remove_all when a deletion fails\<close>

lemma flat_denied_Traps:
  "remove_all Traps flat_denied ''/tmp/t'' = Some (Inr (True, flat_denied_after))"
  by code_simp

lemma flat_denied_Lost:
  "remove_all Lost flat_denied ''/tmp/t'' = Some (Inr (True, flat_denied_after))"
  by code_simp

lemma flat_denied_after_remove:
  "remove flat_denied_after ''/tmp/t'' = (False, flat_denied_after)
   \<and> exists flat_denied_after ''/tmp/t''"
  by code_simp

lemma file_denied_Traps:
  "remove_all Traps file_denied ''/tmp/t'' = Some (Inr (False, file_denied))"
  by code_simp

lemma file_denied_Lost:
  "remove_all Lost file_denied ''/tmp/t'' = Some (Inr (False, file_denied))"
  by code_simp

text \<open>
  C5 on \<open>/tmp/t\<close> holding one file, where the host denies deleting the directory: the
  file is deleted, \<open>remove\<close> of the directory returns false, and \<open>remove_all\<close> returns
  true with the directory still there. Where the host denies deleting the file,
  \<open>remove_all\<close> returns false and deletes nothing.
\<close>

theorem remove_all_ignores_directory_failure:
  "remove_all Traps flat_denied ''/tmp/t'' = Some (Inr (True, flat_denied_after))
   \<and> remove_all Lost flat_denied ''/tmp/t'' = Some (Inr (True, flat_denied_after))
   \<and> remove flat_denied_after ''/tmp/t'' = (False, flat_denied_after)
   \<and> exists flat_denied_after ''/tmp/t''
   \<and> remove_all Traps file_denied ''/tmp/t'' = Some (Inr (False, file_denied))
   \<and> remove_all Lost file_denied ''/tmp/t'' = Some (Inr (False, file_denied))"
  using flat_denied_Traps flat_denied_Lost flat_denied_after_remove
    file_denied_Traps file_denied_Lost by blast

section \<open>What the boolean operations raise\<close>

lemma flat_unreadable_is_directory: "is_directory flat_unreadable ''/tmp/t''"
  by code_simp

lemma flat_unreadable_opendir: "opendir flat_unreadable ''/tmp/t'' = None"
  by code_simp

lemma remove_all_not_directory:
  "\<not> is_directory h p \<Longrightarrow> remove_all w h p = Some (Inr (unlink h p))"
  by (simp add: remove_all_def)

lemma remove_all_cannot_open:
  "is_directory h p \<Longrightarrow> opendir h p = None
   \<Longrightarrow> remove_all w h p = Some (Inl (Runtime_error (''cannot open directory '' @ p)))"
  by (simp add: remove_all_def directory_iterator_open_def)

text \<open>
  C6, as stated, on \<open>/tmp/t\<close> when the host refuses to open it: \<open>lstat\<close> says it is a
  directory, the constructor of \<open>directory_iterator\<close> throws, and \<open>remove_all\<close> lets
  the exception through.
\<close>

theorem remove_all_raises:
  "is_directory flat_unreadable ''/tmp/t''
   \<and> remove_all Traps flat_unreadable ''/tmp/t''
       = Some (Inl (Runtime_error ''cannot open directory /tmp/t''))
   \<and> remove_all Lost flat_unreadable ''/tmp/t''
       = Some (Inl (Runtime_error ''cannot open directory /tmp/t''))"
  using flat_unreadable_is_directory
    remove_all_cannot_open[OF flat_unreadable_is_directory flat_unreadable_opendir]
  by simp

text \<open>
  C6, amended: \<open>exists\<close>, \<open>is_directory\<close>, \<open>is_regular_file\<close> and \<open>remove\<close> return what
  the host calls answer, and \<open>create_directory\<close> returns nothing, for every path,
  without raising. \<open>remove_all\<close> on a path that is not a directory returns the result
  of one \<open>unlink\<close>; on a directory that cannot be opened it raises
  \<open>cannot open directory\<close>.
\<close>

theorem boolean_operations_raising:
  "exists h p = (lstat h p \<noteq> None)
   \<and> is_directory h p = (lstat h p = Some S_IFDIR)
   \<and> is_regular_file h p = (lstat h p = Some S_IFREG)
   \<and> remove h p = (if lstat h p = Some S_IFDIR then rmdir h p else unlink h p)
   \<and> create_directory h p = ((), snd (mkdir h p 493))
   \<and> (\<not> is_directory h p \<longrightarrow> remove_all w h p = Some (Inr (unlink h p)))
   \<and> (is_directory h p \<and> opendir h p = None \<longrightarrow>
        remove_all w h p = Some (Inl (Runtime_error (''cannot open directory '' @ p))))"
  using remove_all_not_directory[of h p w] remove_all_cannot_open[of h p w]
  by (auto simp: exists_def is_directory_def is_regular_file_def remove_def create_directory_def
      split: option.splits)

theorem boolean_operations_raising_witness:
  "\<not> is_directory tree ''/tmp/t/a.txt''
   \<and> remove_all Traps tree ''/tmp/t/a.txt'' = Some (Inr (unlink tree ''/tmp/t/a.txt''))
   \<and> is_directory flat_unreadable ''/tmp/t'' \<and> opendir flat_unreadable ''/tmp/t'' = None
   \<and> remove_all Traps flat_unreadable ''/tmp/t''
       = Some (Inl (Runtime_error ''cannot open directory /tmp/t''))"
proof -
  have a: "\<not> is_directory tree ''/tmp/t/a.txt''" by code_simp
  show ?thesis
    using a flat_unreadable_is_directory flat_unreadable_opendir
      boolean_operations_raising[of tree "''/tmp/t/a.txt''" Traps]
      boolean_operations_raising[of flat_unreadable "''/tmp/t''" Traps]
    by simp
qed

end
